theory Spec2Isabelle
  imports Main "HOL-Library.Multiset" "HOL-Library.Sublist"
begin

section \<open>Recipe generator: the matching and ranking core\<close>

text \<open>
  A shallow embedding of \<^verbatim>\<open>src/Recipe_Generator.py\<close> (class \<^verbatim>\<open>RecipeGenerator\<close>).
  Python strings are HOL strings; a \<^typ>\<open>char\<close> stands for a character with a code
  point below 256. Python integers are \<^typ>\<open>int\<close>. The similarity function
  \<^verbatim>\<open>fuzz.partial_ratio\<close> and the analyzer \<^verbatim>\<open>nlp\<close> belong to external
  libraries: every function that calls one of them takes it as its first argument.
\<close>

subsection \<open>Strings\<close>

text \<open>
  \<^verbatim>\<open>str.lower()\<close> on code points below 256: the letters A-Z and the Latin-1 capitals
  (192 to 222 without the multiplication sign 215) move up by 32, every other character
  stays.
\<close>

definition lower_char :: "char \<Rightarrow> char" where
  "lower_char c =
     (let n = (of_char c :: nat)
      in if (65 \<le> n \<and> n \<le> 90) \<or> (192 \<le> n \<and> n \<le> 222 \<and> n \<noteq> 215)
         then char_of (n + 32) else c)"

definition lower :: "string \<Rightarrow> string" where
  "lower s = map lower_char s"

subsection \<open>Scoring one recipe\<close>

type_synonym ratio_fn = "string \<Rightarrow> string \<Rightarrow> int"

text \<open>
  The inner loop of \<^verbatim>\<open>_calculate_match_score\<close> for one \<^verbatim>\<open>user_ing\<close>:
  \<^verbatim>\<open>
    for recipe_ing in recipe_ingredients_lower:
        if fuzz.partial_ratio(user_ing, recipe_ing) > 75:
            score += 1
            break
  \<close>
  The result tells whether the loop left through \<^verbatim>\<open>break\<close>, that is, whether the
  score was incremented.
\<close>

fun scan_ingredients :: "ratio_fn \<Rightarrow> string \<Rightarrow> string list \<Rightarrow> bool" where
  "scan_ingredients partial_ratio user_ing [] = False"
| "scan_ingredients partial_ratio user_ing (recipe_ing # rest) =
     (if partial_ratio user_ing recipe_ing > 75 then True
      else scan_ingredients partial_ratio user_ing rest)"

text \<open>The outer loop over \<^verbatim>\<open>user_ingredients\<close>, with the running \<^verbatim>\<open>score\<close>.\<close>

fun score_loop :: "ratio_fn \<Rightarrow> string list \<Rightarrow> string list \<Rightarrow> int \<Rightarrow> int" where
  "score_loop partial_ratio [] recipe_ingredients_lower score = score"
| "score_loop partial_ratio (user_ing # rest) recipe_ingredients_lower score =
     score_loop partial_ratio rest recipe_ingredients_lower
       (if scan_ingredients partial_ratio user_ing recipe_ingredients_lower
        then score + 1 else score)"

definition calculate_match_score :: "ratio_fn \<Rightarrow> string list \<Rightarrow> string list \<Rightarrow> int" where
  "calculate_match_score partial_ratio user_ingredients recipe_ingredients =
     (let recipe_ingredients_lower = map lower recipe_ingredients
      in score_loop partial_ratio user_ingredients recipe_ingredients_lower 0)"

text \<open>
  A simple similarity function for concrete instances: 100 on equal strings, 0 otherwise.
\<close>

definition exact_ratio :: ratio_fn where
  "exact_ratio a b = (if a = b then 100 else 0)"

subsection \<open>The catalog and the search\<close>

text \<open>
  A row of the DataFrame \<^verbatim>\<open>self.df\<close> read from the CSV file, with the columns the code
  reads; \<^verbatim>\<open>ingredients\<close> and \<^verbatim>\<open>steps\<close> are already lists of strings
  (\<^verbatim>\<open>__init__\<close> applies \<^verbatim>\<open>ast.literal_eval\<close> to both columns).
\<close>

text \<open>
  The \<^verbatim>\<open>id\<close> of a row is an integer or a string, as the CSV column gives it.
\<close>

datatype py_value = IntVal int | StrVal string

record recipe_row =
  id_col :: py_value
  name_col :: string
  minutes_col :: int
  ingredients_col :: "string list"
  steps_col :: "string list"
  n_ingredients_col :: int

text \<open>The object \<^verbatim>\<open>self\<close>: its only attribute is the DataFrame, a list of rows.\<close>

record recipe_generator =
  df :: "recipe_row list"

text \<open>The dictionary that \<^verbatim>\<open>find_recipes\<close> builds for a matching row, key by key.\<close>

record recipe_match =
  id_key :: py_value
  name :: string
  time :: int
  score :: int
  ingredients :: "string list"
  steps :: "string list"
  n_ingredients :: int

definition make_match :: "recipe_row \<Rightarrow> int \<Rightarrow> recipe_match" where
  "make_match row match_score =
     \<lparr> id_key = id_col row,
       name = name_col row,
       time = minutes_col row,
       score = match_score,
       ingredients = ingredients_col row,
       steps = steps_col row,
       n_ingredients = n_ingredients_col row \<rparr>"

text \<open>
  The loop \<^verbatim>\<open>for _, row in self.df.iterrows()\<close> with the list \<^verbatim>\<open>matches\<close> it
  appends to.
\<close>

fun collect_matches ::
  "ratio_fn \<Rightarrow> string list \<Rightarrow> recipe_row list \<Rightarrow> recipe_match list \<Rightarrow> recipe_match list" where
  "collect_matches partial_ratio user_ingredients [] matches = matches"
| "collect_matches partial_ratio user_ingredients (row # rows) matches =
     (let match_score = calculate_match_score partial_ratio user_ingredients (ingredients_col row)
      in collect_matches partial_ratio user_ingredients rows
           (if match_score > 0 then matches @ [make_match row match_score] else matches))"

text \<open>
  \<^verbatim>\<open>matches.sort(key=lambda x: x['score'], reverse=True)\<close>: Python's sort is stable, and
  with \<^verbatim>\<open>reverse=True\<close> elements with equal keys still keep their order. A stable
  ascending sort on the negated score does the same.
\<close>

definition sort_by_score_reverse :: "recipe_match list \<Rightarrow> recipe_match list" where
  "sort_by_score_reverse matches = sort_key (\<lambda>x. - score x) matches"

text \<open>
  The slice \<^verbatim>\<open>xs[:n]\<close> for an integer \<open>n\<close>: a negative \<open>n\<close> counts from the end,
  and the stop index is clamped to the list.
\<close>

definition slice_to :: "'a list \<Rightarrow> int \<Rightarrow> 'a list" where
  "slice_to xs n = (if 0 \<le> n then take (nat n) xs else take (length xs - nat (- n)) xs)"

text \<open>
  \<^verbatim>\<open>find_recipes\<close> returns the list of matches; the second component is the object
  \<^verbatim>\<open>self\<close> after the call (the method assigns to none of its attributes).
\<close>

definition find_recipes ::
  "ratio_fn \<Rightarrow> recipe_generator \<Rightarrow> string list \<Rightarrow> int \<Rightarrow> recipe_match list \<times> recipe_generator" where
  "find_recipes partial_ratio self user_ingredients max_recipes =
     (let matches = collect_matches partial_ratio user_ingredients (df self) [];
          matches = sort_by_score_reverse matches
      in (slice_to matches max_recipes, self))"

subsection \<open>Formatting a recipe\<close>

abbreviation NL :: char where
  "NL \<equiv> CHR 0x0A"

text \<open>\<^verbatim>\<open>str(n)\<close> for an integer: decimal digits, with a minus sign when negative.\<close>

fun digits :: "nat \<Rightarrow> string" where
  "digits n = (if n < 10 then [''0123456789'' ! n]
               else digits (n div 10) @ [''0123456789'' ! (n mod 10)])"

declare digits.simps [simp del]

definition str_int :: "int \<Rightarrow> string" where
  "str_int i = (if i < 0 then CHR ''-'' # digits (nat (- i)) else digits (nat i))"

text \<open>
  \<^verbatim>\<open>str(v)\<close>, which an f-string applies to the value it prints: a string is printed
  as it is.
\<close>

fun str_value :: "py_value \<Rightarrow> string" where
  "str_value (IntVal i) = str_int i"
| "str_value (StrVal s) = s"

text \<open>\<^verbatim>\<open>sep.join(xs)\<close>.\<close>

fun join :: "string \<Rightarrow> string list \<Rightarrow> string" where
  "join sep [] = []"
| "join sep [x] = x"
| "join sep (x # y # ys) = x @ sep @ join sep (y # ys)"

definition format_recipe :: "recipe_match \<Rightarrow> string" where
  "format_recipe recipe =
     (let output = [NL] @ ''Recipe: '' @ name recipe @ '' (ID: '' @ str_value (id_key recipe) @ '')'';
          output = output @ [NL] @ ''Time: '' @ str_int (time recipe) @ '' minutes'';
          output = output @ [NL, NL] @ ''Ingredients ('' @ str_int (n_ingredients recipe) @ ''):'';
          output = output @ [NL] @ join [NL] (map (\<lambda>ing. ''- '' @ ing) (ingredients recipe));
          output = output @ [NL, NL] @ ''Steps:'';
          output = output @ [NL] @
            join [NL] (map (\<lambda>(i, step). str_int (int i + 1) @ ''. '' @ step)
                        (enumerate 0 (steps recipe)))
      in output)"

text \<open>
  Modelled from the spec: the reader of the displayed ingredient list that the round-trip
  property of section 8 speaks of; the repository has no such function. It splits the text
  at line breaks, skips the five lines before the list (the leading empty line, the name
  line, the time line, an empty line and the ingredient heading), takes the lines that
  begin with a dash and a space, and removes that prefix.
\<close>

fun split_lines :: "string \<Rightarrow> string list" where
  "split_lines [] = [[]]"
| "split_lines (c # cs) =
     (if c = NL then [] # split_lines cs
      else (case split_lines cs of [] \<Rightarrow> [[c]] | l # ls \<Rightarrow> (c # l) # ls))"

definition parse_ingredients :: "string \<Rightarrow> string list" where
  "parse_ingredients output =
     map (drop 2) (takeWhile (\<lambda>l. take 2 l = ''- '') (drop 5 (split_lines output)))"

subsection \<open>Extracting terms from the user's text\<close>

text \<open>
  A token of the document \<^verbatim>\<open>nlp(...)\<close> with the three attributes the code reads:
  \<^verbatim>\<open>pos_\<close>, \<^verbatim>\<open>is_stop\<close> and \<^verbatim>\<open>lemma_\<close>.
\<close>

record token =
  tok_pos :: string
  tok_is_stop :: bool
  tok_lemma :: string

type_synonym nlp_fn = "string \<Rightarrow> token list"

text \<open>The loop over the tokens with the list \<^verbatim>\<open>ingredients\<close> it appends to.\<close>

fun collect_lemmas :: "token list \<Rightarrow> string list \<Rightarrow> string list" where
  "collect_lemmas [] acc = acc"
| "collect_lemmas (tok # doc) acc =
     collect_lemmas doc
       (if tok_pos tok \<in> set [''NOUN'', ''PROPN''] \<and> \<not> tok_is_stop tok
        then acc @ [tok_lemma tok] else acc)"

text \<open>
  \<^verbatim>\<open>list(set(xs))\<close>: the elements of \<open>xs\<close>, each once, in an order that Python does
  not fix (it depends on the hashes of the strings). The model is the relation between
  \<open>xs\<close> and every list that the expression may return.
\<close>

definition list_of_set :: "'a list \<Rightarrow> 'a list \<Rightarrow> bool" where
  "list_of_set xs ys \<longleftrightarrow> distinct ys \<and> set ys = set xs"

definition extract_ingredients :: "nlp_fn \<Rightarrow> string \<Rightarrow> string list \<Rightarrow> bool" where
  "extract_ingredients nlp user_input result \<longleftrightarrow>
     (let doc = nlp (lower user_input);
          found = collect_lemmas doc []
      in list_of_set found result)"

subsection \<open>The search on an explicit store\<close>

text \<open>
  The same method on an explicit store, where writing to an object is visible. The store
  is the list of the objects allocated so far; the address of an object is its index, and
  a new object goes to the end. The cells \<^verbatim>\<open>ingredients\<close> and \<^verbatim>\<open>steps\<close> of a
  row hold the addresses of list objects, and the dictionary built for a match copies
  these addresses (\<^verbatim>\<open>'ingredients': row['ingredients']\<close>): the results share their
  lists with the catalog. The dictionaries are created by the call and stored in the list
  \<^verbatim>\<open>matches\<close> by value.
\<close>

type_synonym addr = nat

record df_row =
  id_cell :: py_value
  name_cell :: string
  minutes_cell :: int
  ingredients_cell :: addr
  steps_cell :: addr
  n_ingredients_cell :: int

record match_dict =
  id_slot :: py_value
  name_slot :: string
  time_slot :: int
  score_slot :: int
  ingredients_slot :: addr
  steps_slot :: addr
  n_ingredients_slot :: int

datatype obj = StrList "string list" | DictList "match_dict list"

text \<open>The state: the store and the attribute \<^verbatim>\<open>self.df\<close>.\<close>

record py_state =
  heap :: "obj list"
  self_df :: "df_row list"

definition alloc :: "obj \<Rightarrow> obj list \<Rightarrow> addr \<times> obj list" where
  "alloc v h = (length h, h @ [v])"

definition lookup :: "obj list \<Rightarrow> addr \<Rightarrow> obj option" where
  "lookup h a = (if a < length h then Some (h ! a) else None)"

definition read_strs :: "obj list \<Rightarrow> addr \<Rightarrow> string list option" where
  "read_strs h a = (case lookup h a of Some (StrList xs) \<Rightarrow> Some xs | _ \<Rightarrow> None)"

definition read_dicts :: "obj list \<Rightarrow> addr \<Rightarrow> match_dict list option" where
  "read_dicts h a = (case lookup h a of Some (DictList ds) \<Rightarrow> Some ds | _ \<Rightarrow> None)"

text \<open>The dictionary of lines 35 to 43, with the two addresses copied from the row.\<close>

definition make_dict :: "df_row \<Rightarrow> int \<Rightarrow> match_dict" where
  "make_dict row match_score =
     \<lparr> id_slot = id_cell row,
       name_slot = name_cell row,
       time_slot = minutes_cell row,
       score_slot = match_score,
       ingredients_slot = ingredients_cell row,
       steps_slot = steps_cell row,
       n_ingredients_slot = n_ingredients_cell row \<rparr>"

text \<open>
  The loop of lines 32 to 43: \<^verbatim>\<open>matches.append(...)\<close> writes to the list object at the
  address \<open>matches\<close>. Reading an address that holds no object of the expected kind gives
  \<open>None\<close>.
\<close>

fun collect_loop ::
  "ratio_fn \<Rightarrow> string list \<Rightarrow> addr \<Rightarrow> df_row list \<Rightarrow> obj list \<Rightarrow> obj list option" where
  "collect_loop partial_ratio user_ingredients matches [] h = Some h"
| "collect_loop partial_ratio user_ingredients matches (row # rows) h =
     (case read_strs h (ingredients_cell row) of
        None \<Rightarrow> None
      | Some recipe_ingredients \<Rightarrow>
          (let match_score = calculate_match_score partial_ratio user_ingredients recipe_ingredients
           in if match_score > 0
              then (case read_dicts h matches of
                      None \<Rightarrow> None
                    | Some ds \<Rightarrow>
                        collect_loop partial_ratio user_ingredients matches rows
                          (h[matches := DictList (ds @ [make_dict row match_score])]))
              else collect_loop partial_ratio user_ingredients matches rows h))"

text \<open>\<^verbatim>\<open>matches.sort(key=lambda x: x['score'], reverse=True)\<close> sorts the object in place.\<close>

definition sort_in_place :: "addr \<Rightarrow> obj list \<Rightarrow> obj list option" where
  "sort_in_place matches h =
     (case read_dicts h matches of
        None \<Rightarrow> None
      | Some ds \<Rightarrow> Some (h[matches := DictList (sort_key (\<lambda>x. - score_slot x) ds)]))"

text \<open>\<^verbatim>\<open>matches[:max_recipes]\<close> allocates a new list.\<close>

definition slice_new :: "addr \<Rightarrow> int \<Rightarrow> obj list \<Rightarrow> (addr \<times> obj list) option" where
  "slice_new matches n h =
     (case read_dicts h matches of
        None \<Rightarrow> None
      | Some ds \<Rightarrow> Some (alloc (DictList (slice_to ds n)) h))"

text \<open>
  \<^verbatim>\<open>find_recipes\<close>: line 30 allocates \<^verbatim>\<open>matches\<close>, then the loop, the sort and the
  slice; the result is the address of the returned list and the state after the call.
\<close>

definition find_recipes_store ::
  "ratio_fn \<Rightarrow> py_state \<Rightarrow> string list \<Rightarrow> int \<Rightarrow> (addr \<times> py_state) option" where
  "find_recipes_store partial_ratio st user_ingredients max_recipes =
     (let (matches, h0) = alloc (DictList []) (heap st)
      in case collect_loop partial_ratio user_ingredients matches (self_df st) h0 of
           None \<Rightarrow> None
         | Some h1 \<Rightarrow>
             (case sort_in_place matches h1 of
                None \<Rightarrow> None
              | Some h2 \<Rightarrow>
                  (case slice_new matches max_recipes h2 of
                     None \<Rightarrow> None
                   | Some (result, h3) \<Rightarrow> Some (result, st\<lparr>heap := h3\<rparr>))))"

text \<open>
  What a state and an address stand for: the rows, the catalog and a list of matches with
  the lists behind the addresses read from the store.
\<close>

definition strs :: "obj list \<Rightarrow> addr \<Rightarrow> string list" where
  "strs h a = (case read_strs h a of Some xs \<Rightarrow> xs | None \<Rightarrow> [])"

definition row_value :: "obj list \<Rightarrow> df_row \<Rightarrow> recipe_row" where
  "row_value h row =
     \<lparr> id_col = id_cell row, name_col = name_cell row, minutes_col = minutes_cell row,
       ingredients_col = strs h (ingredients_cell row),
       steps_col = strs h (steps_cell row),
       n_ingredients_col = n_ingredients_cell row \<rparr>"

definition match_value :: "obj list \<Rightarrow> match_dict \<Rightarrow> recipe_match" where
  "match_value h d =
     \<lparr> id_key = id_slot d, name = name_slot d, time = time_slot d, score = score_slot d,
       ingredients = strs h (ingredients_slot d),
       steps = strs h (steps_slot d),
       n_ingredients = n_ingredients_slot d \<rparr>"

definition catalog_value :: "py_state \<Rightarrow> recipe_generator" where
  "catalog_value st = \<lparr> df = map (row_value (heap st)) (self_df st) \<rparr>"

definition result_value :: "py_state \<Rightarrow> addr \<Rightarrow> recipe_match list option" where
  "result_value st a = map_option (map (match_value (heap st))) (read_dicts (heap st) a)"

text \<open>
  In a state of the program every cell \<^verbatim>\<open>ingredients\<close> and \<^verbatim>\<open>steps\<close> holds the
  address of a list of strings.
\<close>

definition wf_state :: "py_state \<Rightarrow> bool" where
  "wf_state st =
     list_all (\<lambda>row. read_strs (heap st) (ingredients_cell row) \<noteq> None
                   \<and> read_strs (heap st) (steps_cell row) \<noteq> None) (self_df st)"

subsection \<open>Concrete data for the instances\<close>

text \<open>A catalog of five recipes; the second one shares no ingredient with the others.\<close>

definition example_catalog :: "recipe_row list" where
  "example_catalog =
     [\<lparr> id_col = IntVal 1, name_col = ''Omelette'', minutes_col = 10,
        ingredients_col = [''Egg'', ''Butter''],
        steps_col = [''beat the eggs'', ''fry in butter''], n_ingredients_col = 2 \<rparr>,
      \<lparr> id_col = IntVal 2, name_col = ''Salad'', minutes_col = 5,
        ingredients_col = [''lettuce''], steps_col = [''wash'', ''serve''],
        n_ingredients_col = 1 \<rparr>,
      \<lparr> id_col = IntVal 3, name_col = ''Toast'', minutes_col = 3,
        ingredients_col = [''butter'', ''bread''], steps_col = [''toast the bread'', ''spread''],
        n_ingredients_col = 2 \<rparr>,
      \<lparr> id_col = IntVal 4, name_col = ''Boiled egg'', minutes_col = 8,
        ingredients_col = [''EGG''], steps_col = [''boil''], n_ingredients_col = 1 \<rparr>,
      \<lparr> id_col = IntVal 5, name_col = ''Cake'', minutes_col = 45,
        ingredients_col = [''egg'', ''butter'', ''flour''],
        steps_col = [''mix'', ''bake''], n_ingredients_col = 3 \<rparr>]"

definition example_generator :: recipe_generator where
  "example_generator = \<lparr> df = example_catalog \<rparr>"

text \<open>
  An analyzer that answers every text with the tokens of \<^verbatim>\<open>i have eggs and an egg\<close>.
\<close>

definition example_nlp :: nlp_fn where
  "example_nlp text =
     [\<lparr> tok_pos = ''PRON'', tok_is_stop = True, tok_lemma = ''I'' \<rparr>,
      \<lparr> tok_pos = ''VERB'', tok_is_stop = True, tok_lemma = ''have'' \<rparr>,
      \<lparr> tok_pos = ''NOUN'', tok_is_stop = False, tok_lemma = ''egg'' \<rparr>,
      \<lparr> tok_pos = ''CCONJ'', tok_is_stop = True, tok_lemma = ''and'' \<rparr>,
      \<lparr> tok_pos = ''DET'', tok_is_stop = True, tok_lemma = ''an'' \<rparr>,
      \<lparr> tok_pos = ''NOUN'', tok_is_stop = False, tok_lemma = ''egg'' \<rparr>]"

text \<open>
  Two matches that differ only in their ingredients: both have two ingredients, one of
  them with a line break in it, and both are displayed as the same three lines. The third
  match has no line break anywhere.
\<close>

definition example_broken_match :: recipe_match where
  "example_broken_match =
     \<lparr> id_key = IntVal 3, name = ''Toast'', time = 3, score = 1,
       ingredients = [''bread'' @ [NL] @ ''- butter'', ''jam''],
       steps = [''toast the bread''], n_ingredients = 2 \<rparr>"

definition example_other_match :: recipe_match where
  "example_other_match =
     \<lparr> id_key = IntVal 3, name = ''Toast'', time = 3, score = 1,
       ingredients = [''bread'', ''butter'' @ [NL] @ ''- jam''],
       steps = [''toast the bread''], n_ingredients = 2 \<rparr>"

definition example_plain_match :: recipe_match where
  "example_plain_match =
     \<lparr> id_key = StrVal ''R-3'', name = ''Toast'', time = 3, score = 1,
       ingredients = [''bread'', ''butter''],
       steps = [''toast the bread''], n_ingredients = 2 \<rparr>"

text \<open>
  Two matches with a string id, whose names and ingredients hold no line break: the id of
  the second holds line breaks, and both are displayed as the same text.
\<close>

definition example_short_id_match :: recipe_match where
  "example_short_id_match =
     \<lparr> id_key = StrVal ''7'', name = ''Toast'', time = 3, score = 1,
       ingredients = [''bread''],
       steps = [''toast (x)'' @ [NL] @ ''Time: 3 minutes'' @ [NL, NL] @ ''Ingredients (1):''
                 @ [NL] @ ''- jam'' @ [NL, NL] @ ''Steps:'' @ [NL] @ ''1. spread''],
       n_ingredients = 1 \<rparr>"

definition example_long_id_match :: recipe_match where
  "example_long_id_match =
     \<lparr> id_key = StrVal (''7)'' @ [NL] @ ''Time: 3 minutes'' @ [NL, NL] @ ''Ingredients (1):''
                 @ [NL] @ ''- bread'' @ [NL, NL] @ ''Steps:'' @ [NL] @ ''1. toast (x''),
       name = ''Toast'', time = 3, score = 1,
       ingredients = [''jam''],
       steps = [''spread''], n_ingredients = 1 \<rparr>"

text \<open>The catalog above as a state: ten list objects and five rows pointing to them.\<close>

definition example_state :: py_state where
  "example_state =
     \<lparr> heap =
         [StrList [''Egg'', ''Butter''], StrList [''beat the eggs'', ''fry in butter''],
          StrList [''lettuce''], StrList [''wash'', ''serve''],
          StrList [''butter'', ''bread''], StrList [''toast the bread'', ''spread''],
          StrList [''EGG''], StrList [''boil''],
          StrList [''egg'', ''butter'', ''flour''], StrList [''mix'', ''bake'']],
       self_df =
         [\<lparr> id_cell = IntVal 1, name_cell = ''Omelette'', minutes_cell = 10,
            ingredients_cell = 0, steps_cell = 1, n_ingredients_cell = 2 \<rparr>,
          \<lparr> id_cell = IntVal 2, name_cell = ''Salad'', minutes_cell = 5,
            ingredients_cell = 2, steps_cell = 3, n_ingredients_cell = 1 \<rparr>,
          \<lparr> id_cell = IntVal 3, name_cell = ''Toast'', minutes_cell = 3,
            ingredients_cell = 4, steps_cell = 5, n_ingredients_cell = 2 \<rparr>,
          \<lparr> id_cell = IntVal 4, name_cell = ''Boiled egg'', minutes_cell = 8,
            ingredients_cell = 6, steps_cell = 7, n_ingredients_cell = 1 \<rparr>,
          \<lparr> id_cell = IntVal 5, name_cell = ''Cake'', minutes_cell = 45,
            ingredients_cell = 8, steps_cell = 9, n_ingredients_cell = 3 \<rparr>] \<rparr>"

subsection \<open>Facts about the score\<close>

lemma scan_ingredients_iff:
  "scan_ingredients pr u rs \<longleftrightarrow> (\<exists>r \<in> set rs. pr u r > 75)"
  by (induction rs) auto

lemma score_loop_count:
  "score_loop pr us rs s = s + int (length (filter (\<lambda>u. scan_ingredients pr u rs) us))"
  by (induction us arbitrary: s) auto

lemma score_as_count:
  "calculate_match_score pr us ris =
     int (length (filter (\<lambda>u. \<exists>r \<in> set ris. pr u (lower r) > 75) us))"
  by (simp add: calculate_match_score_def score_loop_count scan_ingredients_iff)

lemma score_as_mset:
  "calculate_match_score pr us ris =
     int (size (filter_mset (\<lambda>u. \<exists>r \<in> set ris. pr u (lower r) > 75) (mset us)))"
  by (simp only: score_as_count mset_filter [symmetric] size_mset)

text \<open>
  C1. The match score of a recipe is the number of query terms for which at least one
  ingredient of the recipe, lower-cased, has a partial ratio above 75. A term adds at most
  1, so the score lies between 0 and the number of terms.
\<close>

theorem match_score_counts_terms:
  "calculate_match_score pr us ris =
     int (length (filter (\<lambda>u. \<exists>r \<in> set ris. pr u (lower r) > 75) us))
   \<and> 0 \<le> calculate_match_score pr us ris
   \<and> calculate_match_score pr us ris \<le> int (length us)"
  by (simp add: score_as_count)

theorem match_score_counts_terms_witness:
  "calculate_match_score exact_ratio [''egg'', ''butter'', ''garlic''] [''Egg'', ''BUTTER'', ''flour''] = 2
   \<and> int (length (filter (\<lambda>u. \<exists>r \<in> set [''Egg'', ''BUTTER'', ''flour'']. exact_ratio u (lower r) > 75)
         [''egg'', ''butter'', ''garlic''])) = 2
   \<and> (2::int) \<le> int (length [''egg'', ''butter'', ''garlic''])"
proof -
  have e: "calculate_match_score exact_ratio [''egg'', ''butter'', ''garlic'']
             [''Egg'', ''BUTTER'', ''flour''] = 2"
    by code_simp
  show ?thesis
    using match_score_counts_terms [of exact_ratio "[''egg'', ''butter'', ''garlic'']"
        "[''Egg'', ''BUTTER'', ''flour'']"]
    unfolding e by simp
qed

text \<open>
  C2. A term matches an ingredient exactly when the partial ratio of the term and the
  lower-cased ingredient is strictly above 75: with one term and one ingredient the score
  is 1 in that case and 0 otherwise, and a ratio of exactly 75 gives 0.
\<close>

theorem threshold_strictly_above_75:
  "calculate_match_score pr [u] [r] = (if pr u (lower r) > 75 then 1 else 0)
   \<and> (pr u (lower r) = 75 \<longrightarrow> calculate_match_score pr [u] [r] = 0)"
  by (simp add: calculate_match_score_def)

theorem threshold_strictly_above_75_witness:
  "calculate_match_score (\<lambda>a b. 75) [''egg''] [''Egg''] = 0
   \<and> calculate_match_score (\<lambda>a b. 76) [''egg''] [''Egg''] = 1"
  using threshold_strictly_above_75 [of "\<lambda>a b. 75" "''egg''" "''Egg''"]
    threshold_strictly_above_75 [of "\<lambda>a b. 76" "''egg''" "''Egg''"]
  by simp

text \<open>
  C10. The score does not depend on the order of the query terms: two term lists that are
  permutations of each other give the same score against every ingredient list.
\<close>

theorem match_score_permutation_invariant:
  "mset us = mset us' \<Longrightarrow> calculate_match_score pr us ris = calculate_match_score pr us' ris"
  by (simp add: score_as_mset)

theorem match_score_permutation_invariant_witness:
  "mset [''egg'', ''garlic'', ''butter''] = mset [''butter'', ''egg'', ''garlic'']
   \<and> calculate_match_score exact_ratio [''egg'', ''garlic'', ''butter''] [''Egg'', ''Butter'']
     = calculate_match_score exact_ratio [''butter'', ''egg'', ''garlic''] [''Egg'', ''Butter'']"
proof -
  have h: "mset [''egg'', ''garlic'', ''butter''] = mset [''butter'', ''egg'', ''garlic'']"
    by (simp add: add_mset_commute)
  show ?thesis
    using h match_score_permutation_invariant [OF h, of exact_ratio "[''Egg'', ''Butter'']"]
    by simp
qed

subsection \<open>Facts about the search\<close>

lemma collect_matches_eq:
  "collect_matches pr us rows acc =
     acc @ map (\<lambda>row. make_match row (calculate_match_score pr us (ingredients_col row)))
             (filter (\<lambda>row. calculate_match_score pr us (ingredients_col row) > 0) rows)"
  by (induction rows arbitrary: acc) (simp_all add: Let_def)

lemma score_make_match: "score (make_match row s) = s"
  by (simp add: make_match_def)

lemma collect_matches_positive:
  "m \<in> set (collect_matches pr us rows []) \<Longrightarrow> 0 < score m"
  by (auto simp: collect_matches_eq score_make_match)

lemma set_slice_to: "set (slice_to xs n) \<subseteq> set xs"
  by (auto simp: slice_to_def dest: in_set_takeD)

lemma prefix_slice_to: "prefix (slice_to xs n) xs"
  by (simp add: slice_to_def take_is_prefix)

lemma length_slice_to: "0 \<le> n \<Longrightarrow> int (length (slice_to xs n)) \<le> n"
  by (simp add: slice_to_def)

lemma set_sort_by_score_reverse: "set (sort_by_score_reverse ms) = set ms"
  by (simp add: sort_by_score_reverse_def)

lemma sorted_sort_by_score_reverse:
  "sorted_wrt (\<lambda>a b. score a \<ge> score b) (sort_by_score_reverse ms)"
proof -
  have "sorted (map (\<lambda>x. - score x) (sort_key (\<lambda>x. - score x) ms))"
    by (rule sorted_sort_key)
  then show ?thesis
    by (simp add: sort_by_score_reverse_def sorted_map)
qed

lemma sort_by_score_reverse_stable:
  "filter (\<lambda>m. score m = k) (sort_by_score_reverse ms) = filter (\<lambda>m. score m = k) ms"
proof -
  have "filter (\<lambda>m. - score m = - k) (sort_key (\<lambda>x. - score x) ms)
        = filter (\<lambda>m. - score m = - k) ms"
    by (rule sort_key_stable)
  then show ?thesis
    by (simp add: sort_by_score_reverse_def)
qed

lemma sorted_wrt_prefix:
  "prefix xs ys \<Longrightarrow> sorted_wrt R ys \<Longrightarrow> sorted_wrt R xs"
  by (auto simp: prefix_def sorted_wrt_append)

lemma filter_collect_matches:
  "filter (\<lambda>m. score m = k) (collect_matches pr us rows []) =
     map (\<lambda>row. make_match row k)
       (filter (\<lambda>row. calculate_match_score pr us (ingredients_col row) = k \<and> 0 < k) rows)"
  by (induction rows) (auto simp: collect_matches_eq score_make_match)

lemma fst_find_recipes:
  "fst (find_recipes pr self us n) =
     slice_to (sort_by_score_reverse (collect_matches pr us (df self) [])) n"
  by (simp add: find_recipes_def Let_def)

lemma find_recipes_positive:
  "m \<in> set (fst (find_recipes pr self us n)) \<Longrightarrow> 0 < score m"
proof -
  assume "m \<in> set (fst (find_recipes pr self us n))"
  then have "m \<in> set (collect_matches pr us (df self) [])"
    using set_slice_to [of "sort_by_score_reverse (collect_matches pr us (df self) [])" n]
    by (auto simp: fst_find_recipes set_sort_by_score_reverse)
  then show "0 < score m" by (rule collect_matches_positive)
qed

lemma score_no_terms: "calculate_match_score pr [] ris = 0"
  by (simp add: calculate_match_score_def)

lemma example_search:
  "fst (find_recipes exact_ratio example_generator [''egg'', ''butter''] 3) =
     [make_match (example_catalog ! 0) 2, make_match (example_catalog ! 4) 2,
      make_match (example_catalog ! 2) 1]"
  by code_simp

lemma example_search_ids:
  "map id_key (fst (find_recipes exact_ratio example_generator [''egg'', ''butter''] 3)) = [IntVal 1, IntVal 5, IntVal 3]"
  by code_simp

lemma example_search_scores:
  "map score (fst (find_recipes exact_ratio example_generator [''egg'', ''butter''] 3)) = [2, 2, 1]"
  by code_simp

text \<open>
  C3. Every result of the search has a score of at least 1, for every list of terms, every
  catalog and every limit (a positive one in particular): rows that score 0 never enter
  the list of matches.
\<close>

theorem find_recipes_scores_positive:
  "\<forall>m \<in> set (fst (find_recipes pr self us n)). 1 \<le> score m"
  using find_recipes_positive [of _ pr self us n] by fastforce

theorem find_recipes_scores_positive_witness:
  "map score (fst (find_recipes exact_ratio example_generator [''egg'', ''butter''] 3)) = [2, 2, 1]
   \<and> list_all (\<lambda>m. 1 \<le> score m)
        (fst (find_recipes exact_ratio example_generator [''egg'', ''butter''] 3))"
  using find_recipes_scores_positive [of exact_ratio example_generator "[''egg'', ''butter'']" 3]
    example_search_scores
  by (simp add: list_all_iff)

text \<open>
  C4. The results are sorted by score in non-increasing order, so each result scores at
  least as much as the next one, and the sort is stable: for every score \<open>k\<close>, the
  results with score \<open>k\<close> are the first rows of the catalog with that score, in catalog
  order.
\<close>

theorem find_recipes_sorted_stable:
  "sorted_wrt (\<lambda>a b. score a \<ge> score b) (fst (find_recipes pr self us n))
   \<and> (\<forall>i. Suc i < length (fst (find_recipes pr self us n)) \<longrightarrow>
         score (fst (find_recipes pr self us n) ! i) \<ge> score (fst (find_recipes pr self us n) ! Suc i))
   \<and> (\<forall>k. prefix (filter (\<lambda>m. score m = k) (fst (find_recipes pr self us n)))
         (map (\<lambda>row. make_match row k)
            (filter (\<lambda>row. calculate_match_score pr us (ingredients_col row) = k) (df self))))"
proof -
  let ?ms = "collect_matches pr us (df self) []"
  let ?res = "fst (find_recipes pr self us n)"
  have pre: "prefix ?res (sort_by_score_reverse ?ms)"
    by (simp add: fst_find_recipes prefix_slice_to)
  have srt: "sorted_wrt (\<lambda>a b. score a \<ge> score b) ?res"
    using pre sorted_sort_by_score_reverse by (rule sorted_wrt_prefix)
  have adj: "\<forall>i. Suc i < length ?res \<longrightarrow> score (?res ! i) \<ge> score (?res ! Suc i)"
    using srt by (simp add: sorted_wrt_iff_nth_less)
  have stab: "prefix (filter (\<lambda>m. score m = k) ?res)
         (map (\<lambda>row. make_match row k)
            (filter (\<lambda>row. calculate_match_score pr us (ingredients_col row) = k) (df self)))" for k
  proof (cases "0 < k")
    case True
    have "prefix (filter (\<lambda>m. score m = k) ?res) (filter (\<lambda>m. score m = k) (sort_by_score_reverse ?ms))"
      using pre by (rule filter_mono_prefix)
    then show ?thesis
      using True by (simp add: sort_by_score_reverse_stable filter_collect_matches)
  next
    case False
    have "filter (\<lambda>m. score m = k) ?res = []"
    proof -
      have "\<forall>m \<in> set ?res. score m \<noteq> k"
        using find_recipes_positive [of _ pr self us n] False by fastforce
      then show ?thesis by (simp add: filter_empty_conv)
    qed
    then show ?thesis by simp
  qed
  show ?thesis using srt adj stab by blast
qed

theorem find_recipes_sorted_stable_witness:
  "map id_key (fst (find_recipes exact_ratio example_generator [''egg'', ''butter''] 3)) = [IntVal 1, IntVal 5, IntVal 3]
   \<and> sorted_wrt (\<lambda>a b. score a \<ge> score b)
        [make_match (example_catalog ! 0) 2, make_match (example_catalog ! 4) 2,
         make_match (example_catalog ! 2) 1]
   \<and> prefix (filter (\<lambda>m. score m = 2)
        [make_match (example_catalog ! 0) 2, make_match (example_catalog ! 4) 2,
         make_match (example_catalog ! 2) 1])
        (map (\<lambda>row. make_match row 2)
            (filter (\<lambda>row. calculate_match_score exact_ratio [''egg'', ''butter'']
                        (ingredients_col row) = 2) (df example_generator)))"
  using find_recipes_sorted_stable [of exact_ratio example_generator "[''egg'', ''butter'']" 3]
    example_search_ids
  unfolding example_search by blast

lemma length_collect_matches:
  "length (collect_matches pr us rows []) =
     length (filter (\<lambda>row. 0 < calculate_match_score pr us (ingredients_col row)) rows)"
  by (simp add: collect_matches_eq)

lemma example_ranking:
  "map id_key (sort_by_score_reverse
      (collect_matches exact_ratio [''egg'', ''butter''] (df example_generator) []))
     = [IntVal 1, IntVal 5, IntVal 3, IntVal 4]"
  by code_simp

text \<open>
  C5. For every limit of at least 1 the result is the ranked list of matches cut to its
  first \<open>limit\<close> elements: it has at most \<open>limit\<close> elements, and exactly as many as
  the smaller of \<open>limit\<close> and the number of catalog rows with a positive score.
\<close>

theorem find_recipes_at_most_limit:
  "1 \<le> n \<Longrightarrow>
   fst (find_recipes pr self us n) =
     take (nat n) (sort_by_score_reverse (collect_matches pr us (df self) []))
   \<and> int (length (fst (find_recipes pr self us n))) \<le> n
   \<and> length (fst (find_recipes pr self us n)) =
       min (nat n)
         (length (filter (\<lambda>row. 0 < calculate_match_score pr us (ingredients_col row)) (df self)))"
proof -
  assume n: "1 \<le> n"
  have eq: "fst (find_recipes pr self us n) =
      take (nat n) (sort_by_score_reverse (collect_matches pr us (df self) []))"
    using n by (simp add: fst_find_recipes slice_to_def)
  have len: "length (sort_by_score_reverse (collect_matches pr us (df self) [])) =
      length (filter (\<lambda>row. 0 < calculate_match_score pr us (ingredients_col row)) (df self))"
    by (simp add: sort_by_score_reverse_def length_collect_matches)
  have le: "int (length (fst (find_recipes pr self us n))) \<le> n"
    using n by (simp add: fst_find_recipes length_slice_to)
  have mn: "length (fst (find_recipes pr self us n)) =
       min (nat n)
         (length (filter (\<lambda>row. 0 < calculate_match_score pr us (ingredients_col row)) (df self)))"
    unfolding eq by (simp add: len min.commute)
  show ?thesis using eq le mn by blast
qed

theorem find_recipes_at_most_limit_witness:
  "(1::int) \<le> 3
   \<and> map id_key (fst (find_recipes exact_ratio example_generator [''egg'', ''butter''] 3))
       = take 3 [IntVal 1, IntVal 5, IntVal 3, IntVal 4]
   \<and> int (length (fst (find_recipes exact_ratio example_generator [''egg'', ''butter''] 3))) \<le> 3
   \<and> length (fst (find_recipes exact_ratio example_generator [''egg'', ''butter''] 3)) = min 3 4"
proof -
  have h: "(1::int) \<le> 3" by simp
  have c: "length (filter (\<lambda>row. 0 < calculate_match_score exact_ratio [''egg'', ''butter'']
                 (ingredients_col row)) (df example_generator)) = 4"
    by code_simp
  have t: "map id_key (take (nat 3) (sort_by_score_reverse
      (collect_matches exact_ratio [''egg'', ''butter''] (df example_generator) [])))
     = take 3 [IntVal 1, IntVal 5, IntVal 3, IntVal 4]"
    using example_ranking by (simp add: take_map [symmetric])
  from find_recipes_at_most_limit [OF h, of exact_ratio example_generator "[''egg'', ''butter'']"]
  have e: "fst (find_recipes exact_ratio example_generator [''egg'', ''butter''] 3) =
      take (nat 3) (sort_by_score_reverse
        (collect_matches exact_ratio [''egg'', ''butter''] (df example_generator) []))"
    and l: "int (length (fst (find_recipes exact_ratio example_generator [''egg'', ''butter''] 3))) \<le> 3"
    and m: "length (fst (find_recipes exact_ratio example_generator [''egg'', ''butter''] 3)) =
       min (nat 3) (length (filter (\<lambda>row. 0 < calculate_match_score exact_ratio [''egg'', ''butter'']
                 (ingredients_col row)) (df example_generator)))"
    by blast+
  have m': "length (fst (find_recipes exact_ratio example_generator [''egg'', ''butter''] 3)) = min 3 4"
    using m unfolding c by simp
  have t': "map id_key (fst (find_recipes exact_ratio example_generator [''egg'', ''butter''] 3))
       = take 3 [IntVal 1, IntVal 5, IntVal 3, IntVal 4]"
    unfolding e by (rule t)
  show ?thesis using h t' l m' by blast
qed

text \<open>
  C6. With no query terms every recipe scores 0, and the search returns the empty list for
  every catalog and every limit.
\<close>

theorem find_recipes_no_terms:
  "(\<forall>ris. calculate_match_score pr [] ris = 0) \<and> fst (find_recipes pr self [] n) = []"
  by (simp add: fst_find_recipes collect_matches_eq score_no_terms
      sort_by_score_reverse_def slice_to_def)

theorem find_recipes_no_terms_witness:
  "calculate_match_score exact_ratio [] [''egg'', ''butter'', ''flour''] = 0
   \<and> fst (find_recipes exact_ratio example_generator [] 3) = []"
  using find_recipes_no_terms [of exact_ratio example_generator 3] by blast

subsection \<open>Facts about the search on the store\<close>

lemma read_strs_append: "read_strs h a \<noteq> None \<Longrightarrow> read_strs (h @ xs) a = read_strs h a"
  by (auto simp: read_strs_def lookup_def nth_append split: option.splits obj.splits if_splits)

lemma strs_append: "read_strs h a \<noteq> None \<Longrightarrow> strs (h @ xs) a = strs h a"
  by (simp add: strs_def read_strs_append)

lemma read_strs_strs: "read_strs h a \<noteq> None \<Longrightarrow> read_strs h a = Some (strs h a)"
  by (auto simp: strs_def)

lemma read_dicts_last: "read_dicts (h @ [DictList ds]) (length h) = Some ds"
  by (simp add: read_dicts_def lookup_def)

lemma read_dicts_append: "read_dicts h a \<noteq> None \<Longrightarrow> read_dicts (h @ xs) a = read_dicts h a"
  by (auto simp: read_dicts_def lookup_def nth_append split: option.splits obj.splits if_splits)

lemma collect_loop_store:
  "\<forall>row \<in> set rows. read_strs h (ingredients_cell row) \<noteq> None \<Longrightarrow>
   collect_loop pr us (length h) rows (h @ [DictList ds]) =
     Some (h @ [DictList (ds @
       map (\<lambda>row. make_dict row (calculate_match_score pr us (strs h (ingredients_cell row))))
         (filter (\<lambda>row. 0 < calculate_match_score pr us (strs h (ingredients_cell row))) rows))])"
proof (induction rows arbitrary: ds)
  case Nil
  then show ?case by simp
next
  case (Cons row rows)
  have ne: "read_strs h (ingredients_cell row) \<noteq> None"
    using Cons.prems by simp
  have r: "read_strs (h @ [DictList ds]) (ingredients_cell row) = Some (strs h (ingredients_cell row))"
    by (simp only: read_strs_append [OF ne] read_strs_strs [OF ne])
  have rest: "\<forall>row \<in> set rows. read_strs h (ingredients_cell row) \<noteq> None"
    using Cons.prems by simp
  show ?case
  proof (cases "0 < calculate_match_score pr us (strs h (ingredients_cell row))")
    case True
    then show ?thesis
      using Cons.IH [OF rest] by (simp add: r read_dicts_last)
  next
    case False
    then show ?thesis
      using Cons.IH [OF rest] by (simp add: r)
  qed
qed

lemma sort_in_place_store:
  "sort_in_place (length h) (h @ [DictList ds]) =
     Some (h @ [DictList (sort_key (\<lambda>x. - score_slot x) ds)])"
  by (simp add: sort_in_place_def read_dicts_last)

lemma slice_new_store:
  "slice_new (length h) n (h @ [DictList ds]) =
     Some (Suc (length h), h @ [DictList ds, DictList (slice_to ds n)])"
  by (simp add: slice_new_def read_dicts_last alloc_def)

lemma insort_key_map:
  "(\<And>x. g (f x) = k x) \<Longrightarrow> map f (insort_key k x xs) = insort_key g (f x) (map f xs)"
  by (induction xs) simp_all

lemma sort_key_map:
  assumes "\<And>x. g (f x) = k x"
  shows "map f (sort_key k xs) = sort_key g (map f xs)"
  by (induction xs) (simp_all add: insort_key_map [of g f k, OF assms])

lemma slice_to_map: "map f (slice_to xs n) = slice_to (map f xs) n"
  by (simp add: slice_to_def take_map)

lemma wf_rows:
  "wf_state st \<Longrightarrow> row \<in> set (self_df st) \<Longrightarrow>
   read_strs (heap st) (ingredients_cell row) \<noteq> None \<and> read_strs (heap st) (steps_cell row) \<noteq> None"
  by (simp add: wf_state_def list_all_iff)

lemma find_recipes_store_run:
  assumes "wf_state st"
  shows "find_recipes_store pr st us n =
     Some (Suc (length (heap st)),
       st\<lparr>heap := heap st @
         [DictList (sort_key (\<lambda>x. - score_slot x)
            (map (\<lambda>row. make_dict row (calculate_match_score pr us (strs (heap st) (ingredients_cell row))))
               (filter (\<lambda>row. 0 < calculate_match_score pr us (strs (heap st) (ingredients_cell row)))
                  (self_df st)))),
          DictList (slice_to (sort_key (\<lambda>x. - score_slot x)
            (map (\<lambda>row. make_dict row (calculate_match_score pr us (strs (heap st) (ingredients_cell row))))
               (filter (\<lambda>row. 0 < calculate_match_score pr us (strs (heap st) (ingredients_cell row)))
                  (self_df st)))) n)]\<rparr>)"
proof -
  have rd: "\<forall>row \<in> set (self_df st). read_strs (heap st) (ingredients_cell row) \<noteq> None"
    using assms wf_rows by blast
  show ?thesis
    unfolding find_recipes_store_def alloc_def
    by (simp add: collect_loop_store [OF rd, of pr us "[]", simplified]
        sort_in_place_store slice_new_store)
qed

lemma match_value_make_dict:
  assumes "read_strs h (ingredients_cell row) \<noteq> None" "read_strs h (steps_cell row) \<noteq> None"
  shows "match_value (h @ xs) (make_dict row s) = make_match (row_value h row) s"
  by (simp add: match_value_def make_dict_def make_match_def row_value_def
      strs_append [OF assms(1)] strs_append [OF assms(2)])

lemma row_value_append:
  assumes "read_strs h (ingredients_cell row) \<noteq> None" "read_strs h (steps_cell row) \<noteq> None"
  shows "row_value (h @ xs) row = row_value h row"
  by (simp add: row_value_def strs_append [OF assms(1)] strs_append [OF assms(2)])

lemma score_match_value: "score (match_value h d) = score_slot d"
  by (simp add: match_value_def)

lemma ranked_values:
  assumes "wf_state st"
  shows "map (match_value (heap st @ xs))
      (sort_key (\<lambda>x. - score_slot x)
         (map (\<lambda>row. make_dict row (calculate_match_score pr us (strs (heap st) (ingredients_cell row))))
            (filter (\<lambda>row. 0 < calculate_match_score pr us (strs (heap st) (ingredients_cell row)))
               (self_df st))))
    = sort_by_score_reverse (collect_matches pr us (df (catalog_value st)) [])"
proof -
  let ?pos = "\<lambda>row. 0 < calculate_match_score pr us (strs (heap st) (ingredients_cell row))"
  let ?mk = "\<lambda>row. make_dict row (calculate_match_score pr us (strs (heap st) (ingredients_cell row)))"
  have ing: "ingredients_col (row_value (heap st) row) = strs (heap st) (ingredients_cell row)" for row
    by (simp add: row_value_def)
  have a: "map (match_value (heap st @ xs)) (map ?mk (filter ?pos (self_df st)))
      = collect_matches pr us (df (catalog_value st)) []"
  proof -
    have "map (match_value (heap st @ xs)) (map ?mk (filter ?pos (self_df st)))
        = map (\<lambda>row. make_match (row_value (heap st) row)
                 (calculate_match_score pr us (strs (heap st) (ingredients_cell row))))
            (filter ?pos (self_df st))"
      using assms wf_rows by (auto simp: match_value_make_dict)
    also have "\<dots> = collect_matches pr us (df (catalog_value st)) []"
      by (simp add: collect_matches_eq catalog_value_def filter_map o_def ing)
    finally show ?thesis .
  qed
  have "map (match_value (heap st @ xs)) (sort_key (\<lambda>x. - score_slot x) (map ?mk (filter ?pos (self_df st))))
      = sort_key (\<lambda>x. - score x) (map (match_value (heap st @ xs)) (map ?mk (filter ?pos (self_df st))))"
    by (rule sort_key_map) (simp add: score_match_value)
  then show ?thesis
    unfolding a sort_by_score_reverse_def .
qed

lemma wf_state_append:
  "wf_state st \<Longrightarrow> wf_state (st\<lparr>heap := heap st @ xs\<rparr>)"
  by (auto simp: wf_state_def list_all_iff read_strs_append)

lemma catalog_value_append:
  "wf_state st \<Longrightarrow> catalog_value (st\<lparr>heap := heap st @ xs\<rparr>) = catalog_value st"
  using wf_rows [of st] by (auto simp: catalog_value_def row_value_append)

lemma result_value_at:
  "read_dicts h a = Some ds \<Longrightarrow>
   result_value (st\<lparr>heap := h\<rparr>) a = Some (map (match_value h) ds)"
  by (simp add: result_value_def)

lemma find_recipes_store_result:
  assumes "wf_state st"
  shows "\<exists>result xs. find_recipes_store pr st us n = Some (result, st\<lparr>heap := heap st @ xs\<rparr>)
     \<and> length (heap st) \<le> result
     \<and> (\<forall>ys. result_value (st\<lparr>heap := heap st @ xs @ ys\<rparr>) result =
           Some (fst (find_recipes pr (catalog_value st) us n)))"
proof -
  let ?S = "sort_key (\<lambda>x. - score_slot x)
            (map (\<lambda>row. make_dict row (calculate_match_score pr us (strs (heap st) (ingredients_cell row))))
               (filter (\<lambda>row. 0 < calculate_match_score pr us (strs (heap st) (ingredients_cell row)))
                  (self_df st)))"
  let ?xs = "[DictList ?S, DictList (slice_to ?S n)]"
  have run: "find_recipes_store pr st us n =
      Some (Suc (length (heap st)), st\<lparr>heap := heap st @ ?xs\<rparr>)"
    by (rule find_recipes_store_run [OF assms])
  have val: "result_value (st\<lparr>heap := heap st @ ?xs @ ys\<rparr>) (Suc (length (heap st))) =
           Some (fst (find_recipes pr (catalog_value st) us n))" for ys
  proof -
    have rd: "read_dicts (heap st @ ?xs @ ys) (Suc (length (heap st))) = Some (slice_to ?S n)"
      by (simp add: read_dicts_def lookup_def nth_append)
    have mp: "map (match_value (heap st @ ?xs @ ys)) (slice_to ?S n)
        = slice_to (sort_by_score_reverse (collect_matches pr us (df (catalog_value st)) [])) n"
      by (simp only: slice_to_map ranked_values [OF assms])
    have "result_value (st\<lparr>heap := heap st @ ?xs @ ys\<rparr>) (Suc (length (heap st))) =
        Some (map (match_value (heap st @ ?xs @ ys)) (slice_to ?S n))"
      by (rule result_value_at [OF rd])
    then show ?thesis
      by (simp only: mp fst_find_recipes)
  qed
  show ?thesis
    using run val by (intro exI [of _ "Suc (length (heap st))"] exI [of _ ?xs]) simp
qed

text \<open>
  C9. On the explicit store, from every state of the program: the search returns; it
  leaves \<^verbatim>\<open>self.df\<close> and every object that existed before the call as they were (the
  store after the call is the store before it with new objects at the end), so the catalog
  is the same; the returned list is the result of the search on that catalog, a function
  of the similarity function, the catalog, the terms and the limit; and a second call with
  the same arguments again changes nothing that existed, returns a list with the same
  content, and leaves the content of the first result as it was.
\<close>

theorem find_recipes_pure:
  assumes "wf_state st"
  shows "\<exists>result st'. find_recipes_store pr st us n = Some (result, st')
     \<and> self_df st' = self_df st
     \<and> prefix (heap st) (heap st')
     \<and> catalog_value st' = catalog_value st
     \<and> result_value st' result = Some (fst (find_recipes pr (catalog_value st) us n))
     \<and> (\<exists>result2 st2. find_recipes_store pr st' us n = Some (result2, st2)
          \<and> prefix (heap st') (heap st2)
          \<and> catalog_value st2 = catalog_value st
          \<and> result_value st2 result2 = result_value st' result
          \<and> result_value st2 result = result_value st' result)"
proof -
  obtain r xs where run1: "find_recipes_store pr st us n = Some (r, st\<lparr>heap := heap st @ xs\<rparr>)"
    and val1: "\<And>ys. result_value (st\<lparr>heap := heap st @ xs @ ys\<rparr>) r =
           Some (fst (find_recipes pr (catalog_value st) us n))"
    using find_recipes_store_result [OF assms, of pr us n] by blast
  let ?st' = "st\<lparr>heap := heap st @ xs\<rparr>"
  have wf': "wf_state ?st'" using assms by (rule wf_state_append)
  have cat': "catalog_value ?st' = catalog_value st" using assms by (rule catalog_value_append)
  obtain r2 ys where run2: "find_recipes_store pr ?st' us n = Some (r2, ?st'\<lparr>heap := heap ?st' @ ys\<rparr>)"
    and val2: "\<And>zs. result_value (?st'\<lparr>heap := heap ?st' @ ys @ zs\<rparr>) r2 =
           Some (fst (find_recipes pr (catalog_value ?st') us n))"
    using find_recipes_store_result [OF wf', of pr us n] by blast
  let ?st2 = "?st'\<lparr>heap := heap ?st' @ ys\<rparr>"
  have v1: "result_value ?st' r = Some (fst (find_recipes pr (catalog_value st) us n))"
    using val1 [of "[]"] by simp
  have v2: "result_value ?st2 r2 = Some (fst (find_recipes pr (catalog_value st) us n))"
    using val2 [of "[]"] by (simp add: cat')
  have v3: "result_value ?st2 r = Some (fst (find_recipes pr (catalog_value st) us n))"
    using val1 [of ys] by simp
  have cat2: "catalog_value ?st2 = catalog_value st"
    using catalog_value_append [OF wf', of ys] cat' by simp
  have second: "\<exists>result2 st2. find_recipes_store pr ?st' us n = Some (result2, st2)
          \<and> prefix (heap ?st') (heap st2)
          \<and> catalog_value st2 = catalog_value st
          \<and> result_value st2 result2 = result_value ?st' r
          \<and> result_value st2 r = result_value ?st' r"
    using run2 cat2 v1 v2 v3 by (intro exI [of _ r2] exI [of _ ?st2]) simp
  show ?thesis
    using run1 cat' v1 second by (intro exI [of _ r] exI [of _ ?st']) simp
qed

theorem find_recipes_pure_witness:
  "wf_state example_state
   \<and> map_option fst (find_recipes_store exact_ratio example_state [''egg'', ''butter''] 3) = Some 11
   \<and> (\<exists>result st'. find_recipes_store exact_ratio example_state [''egg'', ''butter''] 3 = Some (result, st')
     \<and> self_df st' = self_df example_state
     \<and> prefix (heap example_state) (heap st')
     \<and> map id_key (the (result_value st' result)) = [IntVal 1, IntVal 5, IntVal 3])"
proof -
  have h: "wf_state example_state" by code_simp
  have a: "map_option fst (find_recipes_store exact_ratio example_state [''egg'', ''butter''] 3) = Some 11"
    by code_simp
  have c: "catalog_value example_state = example_generator" by code_simp
  show ?thesis
    using h a find_recipes_pure [OF h, of exact_ratio "[''egg'', ''butter'']" 3] example_search_ids
    unfolding c by force
qed

subsection \<open>Facts about the formatted text\<close>

lemma split_lines_plain: "NL \<notin> set a \<Longrightarrow> split_lines a = [a]"
  by (induction a) auto

lemma split_lines_first: "NL \<notin> set a \<Longrightarrow> split_lines (a @ NL # rest) = a # split_lines rest"
  by (induction a) auto

lemma split_lines_join:
  "xs \<noteq> [] \<Longrightarrow> \<forall>x \<in> set xs. NL \<notin> set x \<Longrightarrow>
   split_lines (join [NL] xs @ NL # rest) = xs @ split_lines rest"
proof (induction "[NL]" xs rule: join.induct)
  case 1
  then show ?case by simp
next
  case (2 x)
  then show ?case by (simp add: split_lines_first)
next
  case (3 x y ys)
  then show ?case by (simp add: split_lines_first)
qed

lemma split_lines_join_end:
  "xs \<noteq> [] \<Longrightarrow> \<forall>x \<in> set xs. NL \<notin> set x \<Longrightarrow> split_lines (join [NL] xs) = xs"
proof (induction "[NL]" xs rule: join.induct)
  case 1
  then show ?case by simp
next
  case (2 x)
  then show ?case by (simp add: split_lines_plain)
next
  case (3 x y ys)
  then show ?case by (simp add: split_lines_first)
qed

lemma digit_not_NL: "k < 10 \<Longrightarrow> ''0123456789'' ! k \<noteq> NL"
proof -
  assume "k < 10"
  then have "''0123456789'' ! k \<in> set ''0123456789''"
    by (intro nth_mem) simp
  then show ?thesis by auto
qed

lemma digits_no_NL: "NL \<notin> set (digits n)"
proof (induction n rule: digits.induct)
  case (1 n)
  show ?case
  proof (cases "n < 10")
    case True
    then show ?thesis using digit_not_NL [of n] by (simp add: digits.simps [of n])
  next
    case False
    then show ?thesis
      using 1 digit_not_NL [of "n mod 10"] by (simp add: digits.simps [of n])
  qed
qed

lemma str_int_no_NL: "NL \<notin> set (str_int i)"
  by (simp add: str_int_def digits_no_NL)

lemma map_enumerate_nth:
  "map (\<lambda>(i, x). f i x) (enumerate 0 xs) = map (\<lambda>i. f i (xs ! i)) [0..<length xs]"
  by (rule nth_equalityI) (simp_all add: nth_enumerate_eq)

lemma format_recipe_lines:
  assumes nm: "NL \<notin> set (name m)"
    and idn: "NL \<notin> set (str_value (id_key m))"
    and ing: "\<forall>i \<in> set (ingredients m). NL \<notin> set i"
  shows "split_lines (format_recipe m) =
     [[], ''Recipe: '' @ name m @ '' (ID: '' @ str_value (id_key m) @ '')'',
      ''Time: '' @ str_int (time m) @ '' minutes'', [],
      ''Ingredients ('' @ str_int (n_ingredients m) @ ''):'']
     @ (if ingredients m = [] then [[]] else map (\<lambda>i. ''- '' @ i) (ingredients m))
     @ [] # split_lines (''Steps:'' @ [NL] @
          join [NL] (map (\<lambda>(i, step). str_int (int i + 1) @ ''. '' @ step)
                      (enumerate 0 (steps m))))"
proof -
  define L1 where "L1 = ''Recipe: '' @ name m @ '' (ID: '' @ str_value (id_key m) @ '')''"
  define L2 where "L2 = ''Time: '' @ str_int (time m) @ '' minutes''"
  define L4 where "L4 = ''Ingredients ('' @ str_int (n_ingredients m) @ ''):''"
  define ingl where "ingl = map (\<lambda>i. ''- '' @ i) (ingredients m)"
  define rest where "rest = NL # ''Steps:'' @ [NL] @
     join [NL] (map (\<lambda>(i, step). str_int (int i + 1) @ ''. '' @ step) (enumerate 0 (steps m)))"
  have shape: "format_recipe m =
      NL # (L1 @ NL # (L2 @ NL # (NL # (L4 @ NL # (join [NL] ingl @ NL # rest)))))"
    by (simp add: format_recipe_def Let_def L1_def L2_def L4_def ingl_def rest_def)
  have n1: "NL \<notin> set L1" using nm idn by (simp add: L1_def)
  have n2: "NL \<notin> set L2" by (simp add: L2_def str_int_no_NL)
  have n4: "NL \<notin> set L4" by (simp add: L4_def str_int_no_NL)
  have ni: "\<forall>x \<in> set ingl. NL \<notin> set x" using ing by (auto simp: ingl_def)
  have hd: "split_lines (format_recipe m) =
      [] # L1 # L2 # [] # L4 # split_lines (join [NL] ingl @ NL # rest)"
    unfolding shape
    by (simp add: split_lines_first n1 n2 n4)
  have tl: "split_lines (join [NL] ingl @ NL # rest) =
      (if ingredients m = [] then [[]] else ingl) @ split_lines rest"
  proof (cases "ingredients m = []")
    case True
    then show ?thesis by (simp add: ingl_def)
  next
    case False
    then have "ingl \<noteq> []" by (simp add: ingl_def)
    then show ?thesis using False ni by (simp add: split_lines_join)
  qed
  have rs: "split_lines rest = [] # split_lines (''Steps:'' @ [NL] @
     join [NL] (map (\<lambda>(i, step). str_int (int i + 1) @ ''. '' @ step) (enumerate 0 (steps m))))"
    by (simp add: rest_def)
  have "split_lines (format_recipe m) =
      [] # L1 # L2 # [] # L4 # ((if ingredients m = [] then [[]] else ingl) @ [] #
        split_lines (''Steps:'' @ [NL] @
          join [NL] (map (\<lambda>(i, step). str_int (int i + 1) @ ''. '' @ step)
                      (enumerate 0 (steps m)))))"
    by (simp only: hd tl rs)
  then show ?thesis
    by (simp add: L1_def L2_def L4_def ingl_def)
qed

lemma steps_lines:
  assumes st: "\<forall>s \<in> set ss. NL \<notin> set s"
  shows "split_lines (''Steps:'' @ [NL] @
          join [NL] (map (\<lambda>(i, step). str_int (int i + 1) @ ''. '' @ step) (enumerate 0 ss)))
     = ''Steps:'' # (if ss = [] then [[]]
          else map (\<lambda>i. str_int (int i + 1) @ ''. '' @ ss ! i) [0..<length ss])"
proof -
  let ?ls = "map (\<lambda>(i, step). str_int (int i + 1) @ ''. '' @ step) (enumerate 0 ss)"
  have eq: "?ls = map (\<lambda>i. str_int (int i + 1) @ ''. '' @ ss ! i) [0..<length ss]"
    by (rule map_enumerate_nth)
  have "\<forall>x \<in> set (map (\<lambda>i. str_int (int i + 1) @ ''. '' @ ss ! i) [0..<length ss]). NL \<notin> set x"
    using st by (auto simp: str_int_no_NL)
  then have nn: "\<forall>x \<in> set ?ls. NL \<notin> set x"
    by (simp only: eq)
  have s0: "NL \<notin> set ''Steps:''" by simp
  have "split_lines (''Steps:'' @ NL # join [NL] ?ls) = ''Steps:'' # split_lines (join [NL] ?ls)"
    using s0 by (rule split_lines_first)
  moreover have "split_lines (join [NL] ?ls) = (if ss = [] then [[]] else ?ls)"
  proof (cases "ss = []")
    case True
    then show ?thesis by (simp add: enumerate_eq_zip)
  next
    case False
    then have "?ls \<noteq> []" by (simp add: enumerate_eq_zip)
    then show ?thesis using False nn split_lines_join_end by auto
  qed
  ultimately show ?thesis using eq by simp
qed

lemma parse_of_lines:
  "parse_ingredients out = ings"
  if "split_lines out = [a, b, c, d, e] @ (if ings = [] then [[]] else map (\<lambda>i. ''- '' @ i) ings) @ [] # others"
proof (cases "ings = []")
  case True
  then show ?thesis using that by (simp add: parse_ingredients_def)
next
  case False
  have tw: "takeWhile (\<lambda>l. take 2 l = ''- '') (map (\<lambda>i. ''- '' @ i) ings @ [] # others)
        = map (\<lambda>i. ''- '' @ i) ings"
    by (subst takeWhile_append2) auto
  show ?thesis using that False by (simp add: parse_ingredients_def tw o_def)
qed

text \<open>
  C7, as stated, fails: an ingredient may hold a line break, and then the formatted text
  does not determine the ingredient list. The two ingredients \<^verbatim>\<open>bread\n- butter\<close>
  and \<^verbatim>\<open>jam\<close> are displayed exactly as the two ingredients \<^verbatim>\<open>bread\<close> and
  \<^verbatim>\<open>butter\n- jam\<close>, in records that agree in every other field and whose ingredient
  count is right, so no reader of the text returns the right list for both; the reader
  above returns three ingredients.
\<close>

theorem format_recipe_round_trip_counterexample:
  "format_recipe example_broken_match = format_recipe example_other_match
   \<and> ingredients example_broken_match \<noteq> ingredients example_other_match
   \<and> n_ingredients example_broken_match = int (length (ingredients example_broken_match))
   \<and> n_ingredients example_other_match = int (length (ingredients example_other_match))
   \<and> parse_ingredients (format_recipe example_broken_match) = [''bread'', ''butter'', ''jam'']
   \<and> parse_ingredients (format_recipe example_broken_match) \<noteq> ingredients example_broken_match"
  by code_simp

lemma str_value_int_no_NL: "NL \<notin> set (str_value (IntVal i))"
  by (simp add: str_int_no_NL)

lemma format_recipe_id_line_break:
  "format_recipe example_short_id_match = format_recipe example_long_id_match
   \<and> ingredients example_short_id_match \<noteq> ingredients example_long_id_match
   \<and> NL \<notin> set (name example_short_id_match) \<and> NL \<notin> set (name example_long_id_match)
   \<and> list_all (\<lambda>i. NL \<notin> set i) (ingredients example_short_id_match)
   \<and> list_all (\<lambda>i. NL \<notin> set i) (ingredients example_long_id_match)"
  by code_simp

text \<open>
  C7, amended. For every match whose name, id as printed and ingredients hold no line
  break, reading the displayed ingredient list back from the formatted text gives the
  ingredients in their order. An integer id never holds a line break
  (\<open>str_value_int_no_NL\<close>); a string id may, and then the text is ambiguous again
  (\<open>format_recipe_id_line_break\<close>). When the steps hold no line break either, the
  lines of the text are: an empty line, the name and id, the time, an empty line, the
  heading with the ingredient count, one line per ingredient in order (a single empty line
  when there is none), an empty line, the heading of the steps, and one line per step in
  order, numbered from 1 (a single empty line when there is none).
\<close>

theorem format_recipe_round_trip:
  assumes "NL \<notin> set (name m)" and "NL \<notin> set (str_value (id_key m))"
    and "\<forall>i \<in> set (ingredients m). NL \<notin> set i"
  shows "parse_ingredients (format_recipe m) = ingredients m
    \<and> ((\<forall>s \<in> set (steps m). NL \<notin> set s) \<longrightarrow>
       split_lines (format_recipe m) =
         [[], ''Recipe: '' @ name m @ '' (ID: '' @ str_value (id_key m) @ '')'',
          ''Time: '' @ str_int (time m) @ '' minutes'', [],
          ''Ingredients ('' @ str_int (n_ingredients m) @ ''):'']
         @ (if ingredients m = [] then [[]] else map (\<lambda>i. ''- '' @ i) (ingredients m))
         @ [[], ''Steps:'']
         @ (if steps m = [] then [[]]
            else map (\<lambda>i. str_int (int i + 1) @ ''. '' @ steps m ! i) [0..<length (steps m)]))"
proof
  show "parse_ingredients (format_recipe m) = ingredients m"
    using format_recipe_lines [OF assms] by (rule parse_of_lines)
next
  show "(\<forall>s \<in> set (steps m). NL \<notin> set s) \<longrightarrow>
       split_lines (format_recipe m) =
         [[], ''Recipe: '' @ name m @ '' (ID: '' @ str_value (id_key m) @ '')'',
          ''Time: '' @ str_int (time m) @ '' minutes'', [],
          ''Ingredients ('' @ str_int (n_ingredients m) @ ''):'']
         @ (if ingredients m = [] then [[]] else map (\<lambda>i. ''- '' @ i) (ingredients m))
         @ [[], ''Steps:'']
         @ (if steps m = [] then [[]]
            else map (\<lambda>i. str_int (int i + 1) @ ''. '' @ steps m ! i) [0..<length (steps m)])"
  proof
    assume st: "\<forall>s \<in> set (steps m). NL \<notin> set s"
    show "split_lines (format_recipe m) =
         [[], ''Recipe: '' @ name m @ '' (ID: '' @ str_value (id_key m) @ '')'',
          ''Time: '' @ str_int (time m) @ '' minutes'', [],
          ''Ingredients ('' @ str_int (n_ingredients m) @ ''):'']
         @ (if ingredients m = [] then [[]] else map (\<lambda>i. ''- '' @ i) (ingredients m))
         @ [[], ''Steps:'']
         @ (if steps m = [] then [[]]
            else map (\<lambda>i. str_int (int i + 1) @ ''. '' @ steps m ! i) [0..<length (steps m)])"
      unfolding format_recipe_lines [OF assms] steps_lines [OF st] by simp
  qed
qed

theorem format_recipe_round_trip_witness:
  "NL \<notin> set (name example_plain_match)
   \<and> NL \<notin> set (str_value (id_key example_plain_match))
   \<and> list_all (\<lambda>i. NL \<notin> set i) (ingredients example_plain_match)
   \<and> list_all (\<lambda>s. NL \<notin> set s) (steps example_plain_match)
   \<and> parse_ingredients (format_recipe example_plain_match) = [''bread'', ''butter'']
   \<and> split_lines (format_recipe example_plain_match) =
       [[], ''Recipe: Toast (ID: R-3)'', ''Time: 3 minutes'', [], ''Ingredients (2):'',
        ''- bread'', ''- butter'', [], ''Steps:'', ''1. toast the bread'']"
proof -
  have h1: "NL \<notin> set (name example_plain_match)"
    by (simp add: example_plain_match_def)
  have h0: "NL \<notin> set (str_value (id_key example_plain_match))"
    by (simp add: example_plain_match_def)
  have h2: "\<forall>i \<in> set (ingredients example_plain_match). NL \<notin> set i"
    by (simp add: example_plain_match_def)
  have h3: "\<forall>s \<in> set (steps example_plain_match). NL \<notin> set s"
    by (simp add: example_plain_match_def)
  have i: "ingredients example_plain_match = [''bread'', ''butter'']"
    by (simp add: example_plain_match_def)
  have l: "split_lines (format_recipe example_plain_match) =
       [[], ''Recipe: Toast (ID: R-3)'', ''Time: 3 minutes'', [], ''Ingredients (2):'',
        ''- bread'', ''- butter'', [], ''Steps:'', ''1. toast the bread'']"
    by code_simp
  have p: "parse_ingredients (format_recipe example_plain_match) = [''bread'', ''butter'']"
    using format_recipe_round_trip [OF h1 h0 h2] unfolding i by blast
  show ?thesis
    using h0 h1 h2 h3 l p unfolding list_all_iff by blast
qed

subsection \<open>Facts about the extracted terms\<close>

lemma collect_lemmas_eq:
  "collect_lemmas doc acc =
     acc @ map tok_lemma
       (filter (\<lambda>tok. tok_pos tok \<in> {''NOUN'', ''PROPN''} \<and> \<not> tok_is_stop tok) doc)"
  by (induction doc arbitrary: acc) simp_all

lemma list_of_set_remdups: "list_of_set xs (remdups xs)"
  by (simp add: list_of_set_def)

text \<open>
  C8. For every input text the extractor returns a list, and every list it may return
  has no duplicates and holds exactly the lemmas of the tokens of the lower-cased text
  that are tagged as noun or proper noun and are no stop-words; with no such token the
  list is empty.
\<close>

theorem extract_ingredients_distinct_lemmas:
  "(\<exists>res. extract_ingredients nlp txt res)
   \<and> (\<forall>res. extract_ingredients nlp txt res \<longrightarrow>
         distinct res
         \<and> (\<forall>t. t \<in> set res \<longleftrightarrow>
               (\<exists>tok \<in> set (nlp (lower txt)).
                  tok_pos tok \<in> {''NOUN'', ''PROPN''} \<and> \<not> tok_is_stop tok \<and> tok_lemma tok = t))
         \<and> ((\<forall>tok \<in> set (nlp (lower txt)).
                \<not> (tok_pos tok \<in> {''NOUN'', ''PROPN''} \<and> \<not> tok_is_stop tok)) \<longrightarrow> res = []))"
proof
  show "\<exists>res. extract_ingredients nlp txt res"
    unfolding extract_ingredients_def Let_def
    using list_of_set_remdups by blast
next
  show "\<forall>res. extract_ingredients nlp txt res \<longrightarrow>
         distinct res
         \<and> (\<forall>t. t \<in> set res \<longleftrightarrow>
               (\<exists>tok \<in> set (nlp (lower txt)).
                  tok_pos tok \<in> {''NOUN'', ''PROPN''} \<and> \<not> tok_is_stop tok \<and> tok_lemma tok = t))
         \<and> ((\<forall>tok \<in> set (nlp (lower txt)).
                \<not> (tok_pos tok \<in> {''NOUN'', ''PROPN''} \<and> \<not> tok_is_stop tok)) \<longrightarrow> res = [])"
  proof (intro allI impI)
    fix res
    assume "extract_ingredients nlp txt res"
    then have d: "distinct res"
      and s: "set res = set (map tok_lemma
         (filter (\<lambda>tok. tok_pos tok \<in> {''NOUN'', ''PROPN''} \<and> \<not> tok_is_stop tok) (nlp (lower txt))))"
      by (simp_all add: extract_ingredients_def Let_def list_of_set_def collect_lemmas_eq)
    have m: "\<forall>t. t \<in> set res \<longleftrightarrow>
               (\<exists>tok \<in> set (nlp (lower txt)).
                  tok_pos tok \<in> {''NOUN'', ''PROPN''} \<and> \<not> tok_is_stop tok \<and> tok_lemma tok = t)"
      unfolding s by auto
    have e: "(\<forall>tok \<in> set (nlp (lower txt)).
                \<not> (tok_pos tok \<in> {''NOUN'', ''PROPN''} \<and> \<not> tok_is_stop tok)) \<longrightarrow> res = []"
    proof
      assume "\<forall>tok \<in> set (nlp (lower txt)).
                \<not> (tok_pos tok \<in> {''NOUN'', ''PROPN''} \<and> \<not> tok_is_stop tok)"
      then have "filter (\<lambda>tok. tok_pos tok \<in> {''NOUN'', ''PROPN''} \<and> \<not> tok_is_stop tok)
                   (nlp (lower txt)) = []"
        by (simp only: filter_empty_conv)
      then have "set res = {}" unfolding s by simp
      then show "res = []" by simp
    qed
    show "distinct res
         \<and> (\<forall>t. t \<in> set res \<longleftrightarrow>
               (\<exists>tok \<in> set (nlp (lower txt)).
                  tok_pos tok \<in> {''NOUN'', ''PROPN''} \<and> \<not> tok_is_stop tok \<and> tok_lemma tok = t))
         \<and> ((\<forall>tok \<in> set (nlp (lower txt)).
                \<not> (tok_pos tok \<in> {''NOUN'', ''PROPN''} \<and> \<not> tok_is_stop tok)) \<longrightarrow> res = [])"
      using d m e by blast
  qed
qed

theorem extract_ingredients_distinct_lemmas_witness:
  "extract_ingredients example_nlp ''I have eggs and an egg'' [''egg'']
   \<and> collect_lemmas (example_nlp (lower ''I have eggs and an egg'')) [] = [''egg'', ''egg'']
   \<and> distinct [''egg'']
   \<and> (\<exists>tok \<in> set (example_nlp (lower ''I have eggs and an egg'')).
         tok_pos tok \<in> {''NOUN'', ''PROPN''} \<and> \<not> tok_is_stop tok \<and> tok_lemma tok = ''egg'')"
proof -
  have h: "extract_ingredients example_nlp ''I have eggs and an egg'' [''egg'']"
    by code_simp
  have c: "collect_lemmas (example_nlp (lower ''I have eggs and an egg'')) [] = [''egg'', ''egg'']"
    by code_simp
  have "''egg'' \<in> set [''egg'']" by simp
  then show ?thesis
    using h c extract_ingredients_distinct_lemmas [of example_nlp "''I have eggs and an egg''"]
    by blast
qed

end
